theory Spec2Isabelle
  imports Complex_Main
begin

section \<open>The TorBox adapter (src/addon/src/moch/torbox.js)\<close>

text \<open>
  The adapter talks to a remote HTTP service through axios and to a local availability
  cache. Both are outside this file of the repository, so they appear here as oracles
  that read and change an arbitrary world \<open>'w\<close>. Every request handed to axios is
  appended to a log, so that statements about which remote calls were issued, how many
  and in which order can be made. A thrown JavaScript value is a value of type
  \<open>thrown\<close>; a function that may throw returns \<open>thrown + 'a\<close>, with \<open>Inl\<close> the
  thrown value. An \<open>await\<close> is the sequencing of two steps on the state.

  JavaScript has no types, so the shapes are those the source reads: an answer of the
  remote service is a JSON body with the fields of the remote records below, each of
  which may be missing; the resolution token is an object whose file index is an
  integer. Wherever the source tests a value for truthiness (\<open>if (x)\<close>, \<open>x || y\<close>,
  \<open>!x\<close>), the model tests the same: 0, the empty string, null and undefined are falsy,
  objects and arrays are truthy.
\<close>

subsection \<open>JavaScript values\<close>

text \<open>
  Identifiers sent by the remote service (torrent ids, file ids). The source tests them
  with \<open>if (id)\<close>, \<open>id ? a : b\<close> and \<open>id != null\<close>, so absence, null, numbers and
  strings are kept apart. Numbers are integers (JSON ids), NaN does not occur.
\<close>

datatype jsid = IdUndefined | IdNull | IdNum int | IdStr string

fun truthy :: "jsid \<Rightarrow> bool" where
  "truthy IdUndefined = False"
| "truthy IdNull = False"
| "truthy (IdNum n) = (n \<noteq> 0)"
| "truthy (IdStr s) = (s \<noteq> [])"

text \<open>\<open>x != null\<close>: loose inequality, false exactly for null and undefined.\<close>

fun not_nullish :: "jsid \<Rightarrow> bool" where
  "not_nullish IdUndefined = False"
| "not_nullish IdNull = False"
| "not_nullish (IdNum n) = True"
| "not_nullish (IdStr s) = True"

text \<open>
  Modelled from the spec: \<open>BadTokenError\<close> and \<open>AccessDeniedError\<close> are imported from
  mochHelper.js, which is missing from the sources. The spec has them as two different
  error kinds; the source throws them as they are and compares with \<open>===\<close>, so they
  are two constants here, different from each other and from every other thrown value.

  The other values that can be thrown: an axios rejection, with the status of its
  response when there is a response (\<open>None\<close> for a network failure or a timeout) and
  its message; an \<open>Error\<close> made with \<open>new Error(message)\<close>; a runtime TypeError.
\<close>

datatype thrown =
    BadTokenError
  | AccessDeniedError
  | AxiosError "int option" string
  | Error string
  | TypeError string

text \<open>\<open>err?.response?.status\<close>\<close>

fun response_status :: "thrown \<Rightarrow> int option" where
  "response_status (AxiosError st msg) = st"
| "response_status BadTokenError = None"
| "response_status AccessDeniedError = None"
| "response_status (Error msg) = None"
| "response_status (TypeError msg) = None"

text \<open>
  \<open>String.prototype.toLowerCase\<close> on the ASCII letters (infohashes are hexadecimal);
  every other character is left as it is.
\<close>

definition lower_char :: "char \<Rightarrow> char" where
  "lower_char c =
     (case map_of (zip ''ABCDEFGHIJKLMNOPQRSTUVWXYZ'' ''abcdefghijklmnopqrstuvwxyz'') c of
        Some d \<Rightarrow> d
      | None \<Rightarrow> c)"

definition toLowerCase :: "string \<Rightarrow> string" where
  "toLowerCase s = map lower_char s"

text \<open>\<open>xs[i]\<close> on an array: \<open>undefined\<close> (here \<open>None\<close>) outside the array.\<close>

definition array_get :: "'a list \<Rightarrow> int \<Rightarrow> 'a option" where
  "array_get xs i = (if 0 \<le> i \<and> i < int (length xs) then Some (xs ! nat i) else None)"

subsection \<open>Remote records\<close>

record remote_file =
  file_id :: jsid
  file_name :: string

record remote_torrent =
  torrent_id :: jsid
  torrent_hash :: "string option"
  torrent_files :: "remote_file list option"

text \<open>The object literal \<open>{}\<close> read as a torrent: every field is undefined.\<close>

definition empty_object :: remote_torrent where
  "empty_object = \<lparr>torrent_id = IdUndefined, torrent_hash = None, torrent_files = None\<rparr>"

text \<open>
  \<open>data?.data\<close> of a mylist response: missing (or null), an array of torrents, or a
  single torrent object.
\<close>

datatype mylist_data = NoData | DataArray "remote_torrent list" | DataObject remote_torrent

text \<open>What \<open>_myList\<close> returns: an array of torrents or one torrent object.\<close>

datatype listing = Arr "remote_torrent list" | Obj remote_torrent

text \<open>An entry of the availability mapping, with its \<open>files\<close> field.\<close>

record availability_entry =
  entry_files :: "remote_file list option"

type_synonym availability = "string \<rightharpoonup> availability_entry"

text \<open>
  Line 19 of \<open>getCachedStreams\<close>: \<open>!!(entry && entry.files && entry.files.length)\<close>,
  a hash counts as cached when its entry exists and has a non-empty file list.
\<close>

definition cached_flag :: "availability_entry option \<Rightarrow> bool" where
  "cached_flag entry =
     (case entry of
        None \<Rightarrow> False
      | Some e \<Rightarrow> (case entry_files e of None \<Rightarrow> False | Some fs \<Rightarrow> length fs \<noteq> 0))"

text \<open>\<open>data?.data\<close> of a requestdl response: the two fields the source reads.\<close>

record link_data =
  download :: "string option"
  url :: "string option"

text \<open>The resolution token destructured in \<open>resolve\<close>.\<close>

record parameters =
  apiKey :: string
  infohash :: string
  fileIndex :: int
  ip :: "string option"

subsection \<open>The remote service, the cache and the log of requests\<close>

text \<open>
  A request as axios sends it. The URL and the headers are kept in structured form: the
  endpoint, the credential, and the query parameters before \<open>encodeURIComponent\<close>.
  \<open>MyList None\<close> is the URL without \<open>?id=\<close>; the last field of \<open>RequestDl\<close> is
  \<open>user_ip\<close>, absent when \<open>ip\<close> is falsy.
\<close>

datatype request =
    CheckCached "string list" string
  | CreateTorrent string string
  | MyList "jsid option" string
  | RequestDl string jsid jsid "string option"

text \<open>
  The four endpoints. Each answer is either a thrown value (the rejection of the axios
  promise) or the part of the body the source reads: for createtorrent the value of
  \<open>created?.data?.data?.id\<close>, for checkcached \<open>data?.data\<close> (\<open>None\<close> when falsy).
\<close>

record 'w remote =
  post_createtorrent :: "string \<Rightarrow> string \<Rightarrow> 'w \<Rightarrow> (thrown + jsid) \<times> 'w"
  get_mylist :: "jsid option \<Rightarrow> string \<Rightarrow> 'w \<Rightarrow> (thrown + mylist_data) \<times> 'w"
  get_checkcached :: "string list \<Rightarrow> string \<Rightarrow> 'w \<Rightarrow> (thrown + availability option) \<times> 'w"
  get_requestdl ::
    "string \<Rightarrow> jsid \<Rightarrow> jsid \<Rightarrow> string option \<Rightarrow> 'w \<Rightarrow> (thrown + link_data) \<times> 'w"

text \<open>
  The two functions imported from lib/cache.js, which is not part of the sources at
  hand: they are parameters, free to read and change the world and to throw.
\<close>

record 'w cache =
  getCachedAvailabilityResults :: "string list \<Rightarrow> 'w \<Rightarrow> (thrown + availability) \<times> 'w"
  cacheAvailabilityResults :: "availability \<Rightarrow> 'w \<Rightarrow> (thrown + availability) \<times> 'w"

text \<open>The state of a run: the world and the requests issued so far, oldest first.\<close>

type_synonym 'w run = "'w \<times> request list"

definition axios :: "request \<Rightarrow> ('w \<Rightarrow> (thrown + 'b) \<times> 'w) \<Rightarrow> 'w run \<Rightarrow> (thrown + 'b) \<times> 'w run" where
  "axios rq answer s = (case answer (fst s) of (r, w') \<Rightarrow> (r, (w', snd s @ [rq])))"

text \<open>
  Modelled from the spec: \<open>StaticResponse\<close> comes from static.js, which is missing from
  the sources. The spec has its two codes as two different caller-visible outcomes,
  "access failed" and "unexpected failure"; what \<open>resolve\<close> returns is one of them or
  a download link.
\<close>

datatype resolved = Link string | FAILED_ACCESS | FAILED_UNEXPECTED

subsection \<open>The error classifier\<close>

text \<open>\<open>_rethrowAuth\<close> never returns: the value is what it throws.\<close>

definition rethrowAuth :: "thrown \<Rightarrow> thrown" where
  "rethrowAuth err =
     (let status = response_status err in
      if status = Some 401 \<or> status = Some 403 then BadTokenError
      else if status = Some 402 then AccessDeniedError
      else err)"

subsection \<open>The list fetch\<close>

definition myList :: "'w remote \<Rightarrow> string \<Rightarrow> jsid \<Rightarrow> 'w run \<Rightarrow> (thrown + listing) \<times> 'w run" where
  "myList R key ident s =
     (let q = (if truthy ident then Some ident else None) in
      case axios (MyList q key) (get_mylist R q key) s of
        (Inl err, s') \<Rightarrow> (Inl (rethrowAuth err), s')
      | (Inr d, s') \<Rightarrow>
          (Inr (if truthy ident
                then (case d of
                        NoData \<Rightarrow> Obj empty_object
                      | DataArray [] \<Rightarrow> Obj empty_object
                      | DataArray (t # ts) \<Rightarrow> Obj t
                      | DataObject t \<Rightarrow> Obj t)
                else (case d of
                        NoData \<Rightarrow> Arr []
                      | DataArray ts \<Rightarrow> Arr ts
                      | DataObject t \<Rightarrow> Obj t)), s'))"

subsection \<open>The torrent registrar\<close>

text \<open>
  The handler of the create call gives \<open>null\<close> on status 400 and 409, so that
  \<open>created?.data?.data?.id\<close> is undefined there. \<open>list.find\<close> on a value that is not
  an array is a TypeError. \<open>hash_matches\<close> is the arrow function handed to
  \<open>find\<close>, with \<open>t.hash || ''\<close> empty for a missing hash.
\<close>

definition hash_matches :: "string \<Rightarrow> remote_torrent \<Rightarrow> bool" where
  "hash_matches hash t =
     (toLowerCase (case torrent_hash t of None \<Rightarrow> [] | Some h \<Rightarrow> h) = toLowerCase hash)"

definition createOrFindTorrent ::
  "'w remote \<Rightarrow> string \<Rightarrow> string \<Rightarrow> string \<Rightarrow> 'w run \<Rightarrow> (thrown + jsid) \<times> 'w run" where
  "createOrFindTorrent R key hash magnet s =
     (case (case axios (CreateTorrent magnet key) (post_createtorrent R magnet key) s of
              (Inl err, s1) \<Rightarrow>
                (if response_status err = Some 400 \<or> response_status err = Some 409
                 then (Inr IdUndefined, s1)
                 else (Inl (rethrowAuth err), s1))
            | (Inr created, s1) \<Rightarrow> (Inr created, s1)) of
        (Inl err, s1) \<Rightarrow> (Inl err, s1)
      | (Inr created, s1) \<Rightarrow>
          if truthy created then (Inr created, s1)
          else (case myList R key IdUndefined s1 of
                  (Inl err, s2) \<Rightarrow> (Inl err, s2)
                | (Inr (Obj t), s2) \<Rightarrow> (Inl (TypeError ''list.find is not a function''), s2)
                | (Inr (Arr ts), s2) \<Rightarrow>
                    (case find (hash_matches hash) ts of
                       None \<Rightarrow> (Inl (Error ''Torrent not found/created''), s2)
                     | Some found \<Rightarrow> (Inr (torrent_id found), s2))))"

subsection \<open>The file index mapper\<close>

text \<open>
  \<open>isVideo\<close> comes from lib/extension.js and is a parameter. An array has no
  \<open>files\<close> property, so \<open>torrent.files || []\<close> is empty for it.
\<close>

definition video_files :: "(string \<Rightarrow> bool) \<Rightarrow> listing \<Rightarrow> remote_file list" where
  "video_files isVideo torrent =
     filter (\<lambda>f. isVideo (file_name f))
       (case torrent of
          Arr ts \<Rightarrow> []
        | Obj t \<Rightarrow> (case torrent_files t of None \<Rightarrow> [] | Some fs \<Rightarrow> fs))"

definition getFileIdForIndex ::
  "'w remote \<Rightarrow> (string \<Rightarrow> bool) \<Rightarrow> string \<Rightarrow> jsid \<Rightarrow> int \<Rightarrow> 'w run \<Rightarrow> (thrown + jsid) \<times> 'w run" where
  "getFileIdForIndex R isVideo key torrentId index s =
     (case myList R key torrentId s of
        (Inl err, s') \<Rightarrow> (Inl err, s')
      | (Inr torrent, s') \<Rightarrow>
          (case array_get (video_files isVideo torrent) index of
             None \<Rightarrow> (Inl (Error ''File index out of range''), s')
           | Some file \<Rightarrow>
               (Inr (if not_nullish (file_id file) then file_id file else IdNum (index + 1)), s')))"

subsection \<open>The download link requester\<close>

text \<open>
  The axios call has no \<open>.catch(_rethrowAuth)\<close>: a rejection is thrown as it is.
  \<open>a || b\<close> on strings takes \<open>b\<close> when \<open>a\<close> is undefined or empty.
\<close>

definition truthy_str :: "string option \<Rightarrow> bool" where
  "truthy_str v = (case v of None \<Rightarrow> False | Some l \<Rightarrow> l \<noteq> [])"

definition requestDownloadLink ::
  "'w remote \<Rightarrow> string \<Rightarrow> jsid \<Rightarrow> jsid \<Rightarrow> string option \<Rightarrow> 'w run \<Rightarrow> (thrown + string) \<times> 'w run" where
  "requestDownloadLink R key torrentId fileId addr s =
     (let user_ip = (if truthy_str addr then addr else None) in
      case axios (RequestDl key torrentId fileId user_ip)
             (get_requestdl R key torrentId fileId user_ip) s of
        (Inl err, s') \<Rightarrow> (Inl err, s')
      | (Inr d, s') \<Rightarrow>
          (case (if truthy_str (download d) then download d else url d) of
             None \<Rightarrow> (Inl (Error ''No download link''), s')
           | Some link \<Rightarrow>
               (if link = [] then (Inl (Error ''No download link''), s')
                else (Inr link, s'))))"

subsection \<open>The resolution pipeline\<close>

text \<open>
  The body of the \<open>try\<close> block. \<open>getMagnetLink\<close> comes from lib/magnetHelper.js and is
  a parameter that may throw.
\<close>

definition resolve_try ::
  "'w remote \<Rightarrow> (string \<Rightarrow> thrown + string) \<Rightarrow> (string \<Rightarrow> bool) \<Rightarrow> parameters \<Rightarrow> 'w run
     \<Rightarrow> (thrown + string) \<times> 'w run" where
  "resolve_try R getMagnetLink isVideo p s =
     (case getMagnetLink (infohash p) of
        Inl err \<Rightarrow> (Inl err, s)
      | Inr magnet \<Rightarrow>
          (case createOrFindTorrent R (apiKey p) (infohash p) magnet s of
             (Inl err, s1) \<Rightarrow> (Inl err, s1)
           | (Inr torrentId, s1) \<Rightarrow>
               (case getFileIdForIndex R isVideo (apiKey p) torrentId (fileIndex p) s1 of
                  (Inl err, s2) \<Rightarrow> (Inl err, s2)
                | (Inr fileId, s2) \<Rightarrow>
                    requestDownloadLink R (apiKey p) torrentId fileId (ip p) s2)))"

definition resolve ::
  "'w remote \<Rightarrow> (string \<Rightarrow> thrown + string) \<Rightarrow> (string \<Rightarrow> bool) \<Rightarrow> parameters \<Rightarrow> 'w run
     \<Rightarrow> (thrown + resolved) \<times> 'w run" where
  "resolve R getMagnetLink isVideo p s =
     (case resolve_try R getMagnetLink isVideo p s of
        (Inr link, s') \<Rightarrow> (Inr (Link link), s')
      | (Inl err, s') \<Rightarrow>
          (if err = BadTokenError then (Inr FAILED_ACCESS, s')
           else if err = AccessDeniedError then (Inr FAILED_ACCESS, s')
           else (Inr FAILED_UNEXPECTED, s')))"

subsection \<open>The availability checker\<close>

text \<open>
  Modelled from the spec: \<open>chunkArray\<close> of mochHelper.js is missing from the sources.
  The spec has it split the items into fixed-size batches, \<open>(items, size) \<rightarrow> batches\<close>:
  each batch takes the next \<open>n\<close> items, the last one what is left. The spec says
  nothing about a size of zero; no batch is made then.
\<close>

function chunkArray :: "'a list \<Rightarrow> nat \<Rightarrow> 'a list list" where
  "chunkArray items n =
     (if items = [] \<or> n = 0 then [] else take n items # chunkArray (drop n items) n)"
  by pat_completeness auto
termination
  by (relation "measure (\<lambda>(items, n). length items)") auto

declare chunkArray.simps [simp del]

text \<open>
  The \<open>for\<close> loop of \<open>_checkCached\<close> with its accumulator \<open>map\<close>: one request per
  chunk, \<open>Object.assign(map, data?.data || {})\<close> after each answer. A rejection goes
  through \<open>_rethrowAuth\<close> and ends the loop. \<open>maxChunkSize\<close> is 100 when the caller
  gives none, as \<open>getCachedStreams\<close> does.
\<close>

fun checkCached_loop ::
  "'w remote \<Rightarrow> string \<Rightarrow> string list list \<Rightarrow> availability \<Rightarrow> 'w run
     \<Rightarrow> (thrown + availability) \<times> 'w run" where
  "checkCached_loop R key [] acc s = (Inr acc, s)"
| "checkCached_loop R key (chunk # chunks) acc s =
     (case axios (CheckCached chunk key) (get_checkcached R chunk key) s of
        (Inl err, s') \<Rightarrow> (Inl (rethrowAuth err), s')
      | (Inr d, s') \<Rightarrow>
          checkCached_loop R key chunks
            (acc ++ (case d of None \<Rightarrow> Map.empty | Some m \<Rightarrow> m)) s')"

definition missing_hashes :: "availability \<Rightarrow> string list \<Rightarrow> string list" where
  "missing_hashes cached hashes = filter (\<lambda>h. cached h = None) hashes"

definition checkCached ::
  "'w remote \<Rightarrow> 'w cache \<Rightarrow> string list \<Rightarrow> string \<Rightarrow> nat \<Rightarrow> 'w run
     \<Rightarrow> (thrown + availability) \<times> 'w run" where
  "checkCached R C hashes key maxChunkSize s =
     (case getCachedAvailabilityResults C hashes (fst s) of
        (Inl err, w1) \<Rightarrow> (Inl err, (w1, snd s))
      | (Inr cached, w1) \<Rightarrow>
          (let missing = missing_hashes cached hashes in
           if length missing = 0 then (Inr cached, (w1, snd s))
           else (case checkCached_loop R key (chunkArray missing maxChunkSize) Map.empty
                        (w1, snd s) of
                   (Inl err, s2) \<Rightarrow> (Inl err, s2)
                 | (Inr acc, s2) \<Rightarrow>
                     (case cacheAvailabilityResults C acc (fst s2) of
                        (r, w3) \<Rightarrow> (r, (w3, snd s2))))))"

text \<open>The hashes a request asks the bulk check about; none for the other endpoints.\<close>

fun queried_hashes :: "request \<Rightarrow> string list" where
  "queried_hashes (CheckCached hashes key) = hashes"
| "queried_hashes (CreateTorrent magnet key) = []"
| "queried_hashes (MyList q key) = []"
| "queried_hashes (RequestDl key torrentId fileId addr) = []"

text \<open>
  The values of \<open>data?.data || {}\<close> that the loop of \<open>_checkCached\<close> receives, batch
  after batch, up to the first rejected call.
\<close>

fun checkCached_replies ::
  "'w remote \<Rightarrow> string \<Rightarrow> string list list \<Rightarrow> 'w run \<Rightarrow> availability list" where
  "checkCached_replies R key [] s = []"
| "checkCached_replies R key (chunk # chunks) s =
     (case axios (CheckCached chunk key) (get_checkcached R chunk key) s of
        (Inl err, s') \<Rightarrow> []
      | (Inr d, s') \<Rightarrow>
          (case d of None \<Rightarrow> Map.empty | Some m \<Rightarrow> m) # checkCached_replies R key chunks s')"

subsection \<open>Stub collaborators for concrete runs\<close>

text \<open>
  A stub remote over a counter: the answer to a create call may depend on how many create
  calls came before (the counter), the other endpoints give a fixed answer. The stub
  cache reads a fixed mapping and hands back what it is asked to store.
\<close>

definition stub_remote ::
  "(nat \<Rightarrow> thrown + jsid) \<Rightarrow> (thrown + mylist_data) \<Rightarrow> (thrown + availability option)
     \<Rightarrow> (thrown + link_data) \<Rightarrow> nat remote" where
  "stub_remote created listed checked linked =
     \<lparr>post_createtorrent = (\<lambda>magnet key w. (created w, Suc w)),
      get_mylist = (\<lambda>q key w. (listed, w)),
      get_checkcached = (\<lambda>hashes key w. (checked, w)),
      get_requestdl = (\<lambda>key torrentId fileId addr w. (linked, w))\<rparr>"

definition stub_cache :: "availability \<Rightarrow> nat cache" where
  "stub_cache known =
     \<lparr>getCachedAvailabilityResults = (\<lambda>hashes w. (Inr known, w)),
      cacheAvailabilityResults = (\<lambda>m w. (Inr m, w))\<rparr>"



definition stub_magnet :: "string \<Rightarrow> thrown + string" where
  "stub_magnet hash = Inr (''magnet:?xt=urn:btih:'' @ hash)"

definition stub_isVideo :: "string \<Rightarrow> bool" where
  "stub_isVideo name = (name = ''movie.mkv'' \<or> name = ''extra.mp4'')"

definition movie :: remote_torrent where
  "movie =
     \<lparr>torrent_id = IdNum 42, torrent_hash = Some ''ABC123'',
      torrent_files = Some [\<lparr>file_id = IdUndefined, file_name = ''readme.txt''\<rparr>,
                            \<lparr>file_id = IdUndefined, file_name = ''movie.mkv''\<rparr>]\<rparr>"

definition two_videos :: remote_torrent where
  "two_videos =
     \<lparr>torrent_id = IdNum 7, torrent_hash = Some ''abc123'',
      torrent_files = Some [\<lparr>file_id = IdNum 10, file_name = ''readme.txt''\<rparr>,
                            \<lparr>file_id = IdNum 11, file_name = ''movie.mkv''\<rparr>,
                            \<lparr>file_id = IdNum 12, file_name = ''cover.jpg''\<rparr>,
                            \<lparr>file_id = IdNum 0, file_name = ''extra.mp4''\<rparr>]\<rparr>"


text \<open>101 different hashes: \<open>a\<close>, \<open>aa\<close>, \<open>aaa\<close> and so on.\<close>

definition many_hashes :: "string list" where
  "many_hashes = map (\<lambda>k. replicate k CHR ''a'') [1..<102]"

definition token :: parameters where
  "token = \<lparr>apiKey = ''key'', infohash = ''abc123'', fileIndex = 0, ip = None\<rparr>"

definition cdn_link :: link_data where
  "cdn_link = \<lparr>download = Some ''https://cdn/x'', url = None\<rparr>"

definition entry :: availability_entry where
  "entry = \<lparr>entry_files = Some [\<lparr>file_id = IdUndefined, file_name = ''movie.mkv''\<rparr>]\<rparr>"

section \<open>Evaluation and bookkeeping lemmas\<close>

lemmas stub_defs = stub_remote_def stub_cache_def stub_magnet_def stub_isVideo_def movie_def
  token_def cdn_link_def entry_def

lemmas run_defs = resolve_def resolve_try_def createOrFindTorrent_def getFileIdForIndex_def
  requestDownloadLink_def myList_def axios_def video_files_def array_get_def truthy_str_def
  hash_matches_def toLowerCase_def lower_char_def empty_object_def

lemma axios_eq: "answer (fst s) = (r, w') \<Longrightarrow> axios rq answer s = (r, (w', snd s @ [rq]))"
  by (simp add: axios_def)

lemma requestDownloadLink_log:
  "snd (snd (requestDownloadLink R key tid fid addr s)) =
     snd s @ [RequestDl key tid fid (if truthy_str addr then addr else None)]"
  by (auto simp: requestDownloadLink_def Let_def axios_def
      split: option.splits prod.splits sum.splits)

lemma video_files_are_videos: "f \<in> set (video_files isVideo torrent) \<Longrightarrow> isVideo (file_name f)"
  by (auto simp: video_files_def split: listing.splits option.splits)

subsection \<open>Batches\<close>

lemma ceil_div_step:
  fixes L n :: nat
  assumes "0 < n" "0 < L"
  shows "Suc ((L - n + n - 1) div n) = (L + n - 1) div n"
proof -
  obtain k where L: "L = Suc k" using assms(2) by (cases L) auto
  have d: "(k + n) div n = Suc (k div n)" using assms(1) by simp
  show ?thesis
  proof (cases "n \<le> L")
    case True
    then have "L - n + n - 1 = k" using L by simp
    then show ?thesis using d L by simp
  next
    case False
    then have a: "L - n + n - 1 = n - 1" by simp
    have b: "(n - 1) div n = 0" using assms by simp
    have "k div n = 0" using False L by simp
    then show ?thesis using a b d L by simp
  qed
qed

lemma chunkArray_length: "0 < n \<Longrightarrow> length (chunkArray xs n) = (length xs + n - 1) div n"
proof (induction xs n rule: chunkArray.induct)
  case (1 items n)
  show ?case
  proof (cases "items = []")
    case True
    then show ?thesis using 1(2) by (subst chunkArray.simps) simp
  next
    case False
    then have "length (chunkArray items n) = Suc (length (chunkArray (drop n items) n))"
      using 1(2) by (subst chunkArray.simps) simp
    also have "\<dots> = Suc ((length items - n + n - 1) div n)"
      using 1 False by simp
    also have "\<dots> = (length items + n - 1) div n"
      using ceil_div_step [of n "length items"] 1(2) False by simp
    finally show ?thesis .
  qed
qed

lemma int_ceil_div:
  fixes A N :: int
  assumes "0 < N"
  shows "- (- A div N) = (A + N - 1) div N"
proof -
  define q where "q = A div N"
  define r where "r = A mod N"
  have A: "A = q * N + r" by (simp add: q_def r_def)
  have r: "0 \<le> r" "r < N" using assms by (simp_all add: r_def)
  show ?thesis
  proof (cases "r = 0")
    case True
    have "A + N - 1 = q * N + (N - 1)" using A True by linarith
    then have "(A + N - 1) div N = (q * N + (N - 1)) div N" by (rule arg_cong)
    also have "\<dots> = q + (N - 1) div N" using assms by (simp only: div_mult_self3) 
    also have "(N - 1) div N = 0" using assms by (simp add: div_pos_pos_trivial)
    finally have "(A + N - 1) div N = q" by simp
    moreover have "- A div N = - q"
      using zdiv_zminus1_eq_if [of N A] assms True by (simp add: r_def q_def)
    ultimately show ?thesis by simp
  next
    case False
    have "A + N - 1 = (q + 1) * N + (r - 1)" using A by (simp add: algebra_simps)
    then have "(A + N - 1) div N = ((q + 1) * N + (r - 1)) div N" by (rule arg_cong)
    also have "\<dots> = (q + 1) + (r - 1) div N" using assms by (simp only: div_mult_self3)
    also have "(r - 1) div N = 0" using r False by (simp add: div_pos_pos_trivial)
    finally have u: "(A + N - 1) div N = q + 1" by simp
    have "- A div N = - (A div N) - 1" 
      using zdiv_zminus1_eq_if [of N A] assms False by (simp add: r_def)
    then show ?thesis using u by (simp add: q_def)
  qed
qed

lemma ceiling_as_div:
  assumes "0 < n"
  shows "nat \<lceil>real a / real n\<rceil> = (a + n - 1) div n"
proof -
  have "\<lceil>real a / real n\<rceil> = \<lceil>(of_int (int a) :: real) / of_int (int n)\<rceil>" by simp
  also have "\<dots> = - (- int a div int n)" by (rule ceiling_divide_eq_div)
  also have "\<dots> = (int a + int n - 1) div int n" using assms by (simp add: int_ceil_div)
  also have "\<dots> = int ((a + n - 1) div n)" using assms by (simp add: zdiv_int of_nat_diff)
  finally show ?thesis by simp
qed

lemma chunkArray_count: "0 < n \<Longrightarrow> length (chunkArray xs n) = nat \<lceil>real (length xs) / real n\<rceil>"
  using chunkArray_length [of n xs] ceiling_as_div [of n "length xs"] by (simp only:)

lemma chunkArray_members: "set (concat (chunkArray xs n)) \<subseteq> set xs"
proof (induction xs n rule: chunkArray.induct)
  case (1 items n)
  show ?case
  proof (cases "items = [] \<or> n = 0")
    case True
    then have "chunkArray items n = []" by (subst chunkArray.simps) simp
    then show ?thesis by simp
  next
    case False
    then have "concat (chunkArray items n) = take n items @ concat (chunkArray (drop n items) n)"
      by (subst chunkArray.simps) simp
    moreover have "set (concat (chunkArray (drop n items) n)) \<subseteq> set (drop n items)"
      using 1 False by simp
    moreover have "set (take n items) \<subseteq> set items" by (rule set_take_subset)
    moreover have "set (drop n items) \<subseteq> set items" by (rule set_drop_subset)
    ultimately show ?thesis by auto
  qed
qed

lemma chunkArray_concat: "0 < n \<Longrightarrow> concat (chunkArray xs n) = xs"
proof (induction xs n rule: chunkArray.induct)
  case (1 items n)
  show ?case
  proof (cases "items = []")
    case True
    then have "chunkArray items n = []" by (subst chunkArray.simps) simp
    then show ?thesis using True by simp
  next
    case False
    then have "concat (chunkArray items n) = take n items @ concat (chunkArray (drop n items) n)"
      using 1(2) by (subst chunkArray.simps) simp
    then show ?thesis using 1 False by simp
  qed
qed

subsection \<open>The loop of the availability checker\<close>

lemma loop_log_ok:
  "fst (checkCached_loop R key chunks acc s) = Inr m \<Longrightarrow>
   snd (snd (checkCached_loop R key chunks acc s)) = snd s @ map (\<lambda>c. CheckCached c key) chunks"
proof (induction chunks arbitrary: acc s)
  case Nil
  then show ?case by simp
next
  case (Cons chunk chunks)
  obtain r w' where a: "get_checkcached R chunk key (fst s) = (r, w')" by (cases "get_checkcached R chunk key (fst s)")
  show ?case
  proof (cases r)
    case (Inl err)
    with a Cons.prems show ?thesis by (simp add: axios_def)
  next
    case (Inr d)
    with a Cons.prems Cons.IH [of "acc ++ (case d of None \<Rightarrow> Map.empty | Some m \<Rightarrow> m)" "(w', snd s @ [CheckCached chunk key])"]
    show ?thesis by (simp add: axios_def)
  qed
qed

lemma loop_log_prefix:
  "\<exists>k \<le> length chunks. snd (snd (checkCached_loop R key chunks acc s)) =
      snd s @ map (\<lambda>c. CheckCached c key) (take k chunks)"
proof (induction chunks arbitrary: acc s)
  case Nil
  then show ?case by simp
next
  case (Cons chunk chunks)
  obtain r w' where a: "get_checkcached R chunk key (fst s) = (r, w')" by (cases "get_checkcached R chunk key (fst s)")
  show ?case
  proof (cases r)
    case (Inl err)
    with a have "snd (snd (checkCached_loop R key (chunk # chunks) acc s)) =
       snd s @ map (\<lambda>c. CheckCached c key) (take 1 (chunk # chunks))" by (simp add: axios_def)
    then show ?thesis by (intro exI [of _ 1]) simp
  next
    case (Inr d)
    from Cons.IH [of "acc ++ (case d of None \<Rightarrow> Map.empty | Some m \<Rightarrow> m)" "(w', snd s @ [CheckCached chunk key])"]
    obtain k where k: "k \<le> length chunks"
      "snd (snd (checkCached_loop R key chunks (acc ++ (case d of None \<Rightarrow> Map.empty | Some m \<Rightarrow> m)) (w', snd s @ [CheckCached chunk key])))
        = (snd s @ [CheckCached chunk key]) @ map (\<lambda>c. CheckCached c key) (take k chunks)" by auto
    with a Inr have "snd (snd (checkCached_loop R key (chunk # chunks) acc s)) =
       snd s @ map (\<lambda>c. CheckCached c key) (take (Suc k) (chunk # chunks))" by (simp add: axios_def)
    with k(1) show ?thesis by (intro exI [of _ "Suc k"]) simp
  qed
qed

lemma loop_acc:
  "fst (checkCached_loop R key chunks acc s) = Inr m \<Longrightarrow>
   m = foldl (++) acc (checkCached_replies R key chunks s)
   \<and> length (checkCached_replies R key chunks s) = length chunks"
proof (induction chunks arbitrary: acc s)
  case Nil
  then show ?case by simp
next
  case (Cons chunk chunks)
  obtain r w' where a: "get_checkcached R chunk key (fst s) = (r, w')" by (cases "get_checkcached R chunk key (fst s)")
  show ?case
  proof (cases r)
    case (Inl err)
    with a Cons.prems show ?thesis by (simp add: axios_def)
  next
    case (Inr d)
    with a Cons.prems Cons.IH [of "acc ++ (case d of None \<Rightarrow> Map.empty | Some m \<Rightarrow> m)" "(w', snd s @ [CheckCached chunk key])"]
    show ?thesis by (simp add: axios_def)
  qed
qed

lemma loop_replies_le: "length (checkCached_replies R key chunks s) \<le> length chunks"
proof (induction chunks arbitrary: s)
  case Nil
  then show ?case by simp
next
  case (Cons chunk chunks)
  obtain r w' where a: "get_checkcached R chunk key (fst s) = (r, w')"
    by (cases "get_checkcached R chunk key (fst s)")
  show ?case
  proof (cases r)
    case (Inl err)
    with a show ?thesis by (simp add: axios_def)
  next
    case (Inr d)
    with a Cons.IH [of "(w', snd s @ [CheckCached chunk key])"]
    show ?thesis by (simp add: axios_def)
  qed
qed

lemma loop_all_answered:
  "length (checkCached_replies R key chunks s) = length chunks \<Longrightarrow>
   \<exists>m. fst (checkCached_loop R key chunks acc s) = Inr m"
proof (induction chunks arbitrary: acc s)
  case Nil
  then show ?case by simp
next
  case (Cons chunk chunks)
  obtain r w' where a: "get_checkcached R chunk key (fst s) = (r, w')"
    by (cases "get_checkcached R chunk key (fst s)")
  show ?case
  proof (cases r)
    case (Inl err)
    with a Cons.prems show ?thesis by (simp add: axios_def)
  next
    case (Inr d)
    with a Cons.prems
      Cons.IH [of "(w', snd s @ [CheckCached chunk key])"
                  "acc ++ (case d of None \<Rightarrow> Map.empty | Some m \<Rightarrow> m)"]
    show ?thesis by (simp add: axios_def)
  qed
qed

lemma loop_rejected:
  "length (checkCached_replies R key chunks s) < length chunks \<Longrightarrow>
   (\<exists>err. fst (checkCached_loop R key chunks acc s) = Inl err)
   \<and> snd (snd (checkCached_loop R key chunks acc s)) =
       snd s @ map (\<lambda>c. CheckCached c key)
                 (take (Suc (length (checkCached_replies R key chunks s))) chunks)"
proof (induction chunks arbitrary: acc s)
  case Nil
  then show ?case by simp
next
  case (Cons chunk chunks)
  obtain r w' where a: "get_checkcached R chunk key (fst s) = (r, w')"
    by (cases "get_checkcached R chunk key (fst s)")
  show ?case
  proof (cases r)
    case (Inl err)
    with a show ?thesis by (simp add: axios_def)
  next
    case (Inr d)
    with a Cons.prems
      Cons.IH [of "(w', snd s @ [CheckCached chunk key])"
                  "acc ++ (case d of None \<Rightarrow> Map.empty | Some m \<Rightarrow> m)"]
    show ?thesis by (simp add: axios_def)
  qed
qed

lemma foldl_map_add_None:
  "foldl (++) acc rs h = None \<longleftrightarrow> acc h = None \<and> (\<forall>r \<in> set rs. r h = None)"
  by (induction rs arbitrary: acc) (auto simp: map_add_None)

section \<open>The error classifier\<close>

text \<open>
  Claim C5. The classifier is a function of the status of the response alone: status 401
  or 403 throws \<open>BadTokenError\<close>, status 402 throws \<open>AccessDeniedError\<close>, and every
  other thrown value, a network failure without a status among them, is thrown again as
  it came.
\<close>

theorem rethrowAuth_classifier:
  "rethrowAuth err =
     (if response_status err = Some 401 \<or> response_status err = Some 403 then BadTokenError
      else if response_status err = Some 402 then AccessDeniedError
      else err)"
  by (simp add: rethrowAuth_def Let_def)

theorem rethrowAuth_classifier_witness:
  "rethrowAuth (AxiosError (Some 401) ''Unauthorized'') = BadTokenError
   \<and> rethrowAuth (AxiosError (Some 403) ''Forbidden'') = BadTokenError
   \<and> rethrowAuth (AxiosError (Some 402) ''Payment Required'') = AccessDeniedError
   \<and> rethrowAuth (AxiosError (Some 500) ''Server Error'') = AxiosError (Some 500) ''Server Error''
   \<and> rethrowAuth (AxiosError None ''ECONNRESET'') = AxiosError None ''ECONNRESET''
   \<and> rethrowAuth (Error ''boom'') = Error ''boom''"
  using rethrowAuth_classifier [of "AxiosError (Some 401) ''Unauthorized''"]
    rethrowAuth_classifier [of "AxiosError (Some 403) ''Forbidden''"]
    rethrowAuth_classifier [of "AxiosError (Some 402) ''Payment Required''"]
    rethrowAuth_classifier [of "AxiosError (Some 500) ''Server Error''"]
    rethrowAuth_classifier [of "AxiosError None ''ECONNRESET''"]
    rethrowAuth_classifier [of "Error ''boom''"]
  by simp

section \<open>The file index mapper\<close>

text \<open>
  Claim C4. Whatever torrent record the list fetch brings back, \<open>mapIndex\<close>
  (\<open>_getFileIdForIndex\<close>) looks only at the files whose name \<open>isVideo\<close> accepts, kept
  in the order of the remote list: an index inside that filtered list selects its
  element there, which is a video file, and an index at or beyond its length (or a
  negative one) throws \<open>Error('File index out of range')\<close>, also when the raw file list
  is long enough to have an element at that index.
\<close>

theorem getFileIdForIndex_video_only:
  assumes "myList R key tid s = (Inr torrent, s')"
  shows "video_files isVideo torrent =
           filter (\<lambda>f. isVideo (file_name f))
             (case torrent of Arr ts \<Rightarrow> []
              | Obj t \<Rightarrow> (case torrent_files t of None \<Rightarrow> [] | Some fs \<Rightarrow> fs))
       \<and> (0 \<le> index \<and> index < int (length (video_files isVideo torrent)) \<longrightarrow>
            (\<exists>fid. getFileIdForIndex R isVideo key tid index s = (Inr fid, s')
               \<and> fid = (if not_nullish (file_id (video_files isVideo torrent ! nat index))
                        then file_id (video_files isVideo torrent ! nat index)
                        else IdNum (index + 1))
               \<and> isVideo (file_name (video_files isVideo torrent ! nat index))))
       \<and> (index < 0 \<or> int (length (video_files isVideo torrent)) \<le> index \<longrightarrow>
            getFileIdForIndex R isVideo key tid index s =
              (Inl (Error ''File index out of range''), s'))"
proof (intro conjI impI)
  show "video_files isVideo torrent =
           filter (\<lambda>f. isVideo (file_name f))
             (case torrent of Arr ts \<Rightarrow> []
              | Obj t \<Rightarrow> (case torrent_files t of None \<Rightarrow> [] | Some fs \<Rightarrow> fs))"
    by (simp add: video_files_def)
next
  assume r: "0 \<le> index \<and> index < int (length (video_files isVideo torrent))"
  then have "nat index < length (video_files isVideo torrent)" by linarith
  then have "video_files isVideo torrent ! nat index \<in> set (video_files isVideo torrent)"
    by (rule nth_mem)
  then have v: "isVideo (file_name (video_files isVideo torrent ! nat index))"
    by (rule video_files_are_videos)
  from r assms v
  show "\<exists>fid. getFileIdForIndex R isVideo key tid index s = (Inr fid, s')
               \<and> fid = (if not_nullish (file_id (video_files isVideo torrent ! nat index))
                        then file_id (video_files isVideo torrent ! nat index)
                        else IdNum (index + 1))
               \<and> isVideo (file_name (video_files isVideo torrent ! nat index))"
    by (simp add: getFileIdForIndex_def array_get_def)
next
  assume "index < 0 \<or> int (length (video_files isVideo torrent)) \<le> index"
  with assms show "getFileIdForIndex R isVideo key tid index s =
              (Inl (Error ''File index out of range''), s')"
    by (auto simp: getFileIdForIndex_def array_get_def)
qed

theorem getFileIdForIndex_video_only_witness:
  "getFileIdForIndex (stub_remote (\<lambda>w. Inr (IdNum 7)) (Inr (DataObject two_videos)) (Inr None) (Inr cdn_link))
      stub_isVideo ''key'' (IdNum 7) 1 (0, [])
     = (Inr (IdNum 0), (0, [MyList (Some (IdNum 7)) ''key'']))
   \<and> getFileIdForIndex (stub_remote (\<lambda>w. Inr (IdNum 7)) (Inr (DataObject two_videos)) (Inr None) (Inr cdn_link))
      stub_isVideo ''key'' (IdNum 7) 2 (0, [])
     = (Inl (Error ''File index out of range''), (0, [MyList (Some (IdNum 7)) ''key'']))"
proof -
  let ?R = "stub_remote (\<lambda>w. Inr (IdNum 7)) (Inr (DataObject two_videos)) (Inr None) (Inr cdn_link)"
  have m: "myList ?R ''key'' (IdNum 7) (0, []) = (Inr (Obj two_videos), (0, [MyList (Some (IdNum 7)) ''key'']))"
    by (simp add: myList_def axios_def stub_remote_def)
  have v: "video_files stub_isVideo (Obj two_videos) =
             [\<lparr>file_id = IdNum 11, file_name = ''movie.mkv''\<rparr>,
              \<lparr>file_id = IdNum 0, file_name = ''extra.mp4''\<rparr>]"
    by (simp add: video_files_def two_videos_def stub_isVideo_def)
  from getFileIdForIndex_video_only [OF m, of stub_isVideo 1, unfolded v, THEN conjunct2]
    getFileIdForIndex_video_only [OF m, of stub_isVideo 2, unfolded v, THEN conjunct2]
  show ?thesis by simp
qed

text \<open>
  Claim C8. When the selected video file has no identifier (undefined or null), the
  mapper returns \<open>index + 1\<close>; and in \<open>resolve\<close>, when the torrent has a single video
  file without identifier and the index is 0, the request for the download link that
  follows carries \<open>file_id = 1\<close>.
\<close>

theorem getFileIdForIndex_positional_fallback:
  "(myList R key tid s = (Inr torrent, s')
      \<and> 0 \<le> index \<and> index < int (length (video_files isVideo torrent))
      \<and> \<not> not_nullish (file_id (video_files isVideo torrent ! nat index))
    \<longrightarrow> getFileIdForIndex R isVideo key tid index s = (Inr (IdNum (index + 1)), s'))
   \<and> (getMagnetLink (infohash p) = Inr magnet
      \<and> createOrFindTorrent R (apiKey p) (infohash p) magnet s0 = (Inr tid', s1)
      \<and> myList R (apiKey p) tid' s1 = (Inr torrent', s2)
      \<and> video_files isVideo torrent' = [file]
      \<and> \<not> not_nullish (file_id file)
      \<and> fileIndex p = 0
    \<longrightarrow> snd (snd (resolve R getMagnetLink isVideo p s0)) =
          snd s2 @ [RequestDl (apiKey p) tid' (IdNum 1) (if truthy_str (ip p) then ip p else None)])"
proof (intro conjI impI)
  assume "myList R key tid s = (Inr torrent, s')
      \<and> 0 \<le> index \<and> index < int (length (video_files isVideo torrent))
      \<and> \<not> not_nullish (file_id (video_files isVideo torrent ! nat index))"
  then show "getFileIdForIndex R isVideo key tid index s = (Inr (IdNum (index + 1)), s')"
    by (simp add: getFileIdForIndex_def array_get_def)
next
  assume a: "getMagnetLink (infohash p) = Inr magnet
      \<and> createOrFindTorrent R (apiKey p) (infohash p) magnet s0 = (Inr tid', s1)
      \<and> myList R (apiKey p) tid' s1 = (Inr torrent', s2)
      \<and> video_files isVideo torrent' = [file]
      \<and> \<not> not_nullish (file_id file)
      \<and> fileIndex p = 0"
  then have g: "getFileIdForIndex R isVideo (apiKey p) tid' (fileIndex p) s1 = (Inr (IdNum 1), s2)"
    by (simp add: getFileIdForIndex_def array_get_def)
  have "snd (resolve R getMagnetLink isVideo p s0) =
          snd (requestDownloadLink R (apiKey p) tid' (IdNum 1) (ip p) s2)"
    using a g by (simp add: resolve_def resolve_try_def split: prod.splits sum.splits)
  then show "snd (snd (resolve R getMagnetLink isVideo p s0)) =
          snd s2 @ [RequestDl (apiKey p) tid' (IdNum 1) (if truthy_str (ip p) then ip p else None)]"
    by (simp only: requestDownloadLink_log)
qed

theorem getFileIdForIndex_positional_fallback_witness:
  "getFileIdForIndex (stub_remote (\<lambda>w. Inr (IdNum 42)) (Inr (DataObject movie)) (Inr None) (Inr cdn_link))
      stub_isVideo ''key'' (IdNum 42) 0 (1, [CreateTorrent ''magnet:?xt=urn:btih:abc123'' ''key''])
     = (Inr (IdNum 1), (1, [CreateTorrent ''magnet:?xt=urn:btih:abc123'' ''key'',
                            MyList (Some (IdNum 42)) ''key'']))
   \<and> resolve (stub_remote (\<lambda>w. Inr (IdNum 42)) (Inr (DataObject movie)) (Inr None) (Inr cdn_link))
        stub_magnet stub_isVideo token (0, [])
     = (Inr (Link ''https://cdn/x''),
        (1, [CreateTorrent ''magnet:?xt=urn:btih:abc123'' ''key'',
             MyList (Some (IdNum 42)) ''key'',
             RequestDl ''key'' (IdNum 42) (IdNum 1) None]))"
proof -
  let ?R = "stub_remote (\<lambda>w. Inr (IdNum 42)) (Inr (DataObject movie)) (Inr None) (Inr cdn_link)"
  let ?s1 = "(1::nat, [CreateTorrent ''magnet:?xt=urn:btih:abc123'' ''key''])"
  let ?s2 = "(1::nat, [CreateTorrent ''magnet:?xt=urn:btih:abc123'' ''key'',
                       MyList (Some (IdNum 42)) ''key''])"
  let ?f = "\<lparr>file_id = IdUndefined, file_name = ''movie.mkv''\<rparr>"
  have g: "stub_magnet (infohash token) = Inr ''magnet:?xt=urn:btih:abc123''"
    by (simp add: stub_magnet_def token_def)
  have c: "createOrFindTorrent ?R (apiKey token) (infohash token) ''magnet:?xt=urn:btih:abc123'' (0, [])
             = (Inr (IdNum 42), ?s1)"
    by (simp add: createOrFindTorrent_def axios_def stub_remote_def token_def)
  have m: "myList ?R (apiKey token) (IdNum 42) ?s1 = (Inr (Obj movie), ?s2)"
    by (simp add: myList_def axios_def stub_remote_def token_def)
  have m': "myList ?R ''key'' (IdNum 42) ?s1 = (Inr (Obj movie), ?s2)"
    using m by (simp add: token_def)
  have v: "video_files stub_isVideo (Obj movie) = [?f]"
    by (simp add: video_files_def movie_def stub_isVideo_def)
  have n: "\<not> not_nullish (file_id ?f)" by simp
  have i: "fileIndex token = 0" by (simp add: token_def)
  have r: "fst (resolve ?R stub_magnet stub_isVideo token (0, [])) = Inr (Link ''https://cdn/x'')"
       "fst (snd (resolve ?R stub_magnet stub_isVideo token (0, []))) = 1"
    by (simp_all add: run_defs stub_defs)
  from getFileIdForIndex_positional_fallback
         [of ?R "''key''" "IdNum 42" ?s1 "Obj movie" ?s2 0 stub_isVideo
             stub_magnet token "''magnet:?xt=urn:btih:abc123''" "(0, [])" "IdNum 42" ?s1 "Obj movie" ?s2 ?f]
    g c m m' v n i r
  show ?thesis by (simp add: prod_eq_iff token_def truthy_str_def)
qed

section \<open>The download link requester\<close>

text \<open>
  Claim C9, as stated, fails on an empty string: \<open>download || url\<close> passes over a
  \<open>download\<close> field that is present and empty, and \<open>!link\<close> throws when the only
  field present is empty.
\<close>

theorem requestDownloadLink_empty_download_counterexample:
  "fst (requestDownloadLink
          (stub_remote (\<lambda>w. Inr (IdNum 42)) (Inr NoData) (Inr None)
             (Inr \<lparr>download = Some [], url = Some ''https://cdn/x''\<rparr>))
          ''key'' (IdNum 42) (IdNum 1) None (0, [])) = Inr ''https://cdn/x''
   \<and> fst (requestDownloadLink
          (stub_remote (\<lambda>w. Inr (IdNum 42)) (Inr NoData) (Inr None)
             (Inr \<lparr>download = Some [], url = None\<rparr>))
          ''key'' (IdNum 42) (IdNum 1) None (0, [])) = Inl (Error ''No download link'')"
  by (simp add: run_defs stub_defs)

text \<open>
  Claim C9, amended. For every answer of the download-link endpoint, the requester
  returns the \<open>download\<close> field when it is present and not empty, otherwise the
  \<open>url\<close> field when that is present and not empty, and throws
  \<open>Error('No download link')\<close> exactly when neither field is present and not empty.
\<close>

theorem requestDownloadLink_link:
  assumes "get_requestdl R key tid fid (if truthy_str addr then addr else None) (fst s) = (Inr d, w')"
  shows "(\<forall>l. download d = Some l \<and> l \<noteq> [] \<longrightarrow>
            fst (requestDownloadLink R key tid fid addr s) = Inr l)
       \<and> (\<forall>l. \<not> truthy_str (download d) \<and> url d = Some l \<and> l \<noteq> [] \<longrightarrow>
            fst (requestDownloadLink R key tid fid addr s) = Inr l)
       \<and> (fst (requestDownloadLink R key tid fid addr s) = Inl (Error ''No download link'')
            \<longleftrightarrow> \<not> truthy_str (download d) \<and> \<not> truthy_str (url d))"
  using assms
  by (auto simp: requestDownloadLink_def Let_def axios_def truthy_str_def split: option.splits)

theorem requestDownloadLink_link_witness:
  "fst (requestDownloadLink
          (stub_remote (\<lambda>w. Inr (IdNum 42)) (Inr NoData) (Inr None) (Inr cdn_link))
          ''key'' (IdNum 42) (IdNum 1) None (0, [])) = Inr ''https://cdn/x''
   \<and> fst (requestDownloadLink
          (stub_remote (\<lambda>w. Inr (IdNum 42)) (Inr NoData) (Inr None)
             (Inr \<lparr>download = None, url = Some ''https://cdn/y''\<rparr>))
          ''key'' (IdNum 42) (IdNum 1) None (0, [])) = Inr ''https://cdn/y''
   \<and> fst (requestDownloadLink
          (stub_remote (\<lambda>w. Inr (IdNum 42)) (Inr NoData) (Inr None)
             (Inr \<lparr>download = None, url = None\<rparr>))
          ''key'' (IdNum 42) (IdNum 1) None (0, [])) = Inl (Error ''No download link'')"
proof -
  let ?R = "\<lambda>d. stub_remote (\<lambda>w. Inr (IdNum 42)) (Inr NoData) (Inr None) (Inr d)"
  have h: "\<And>d. get_requestdl (?R d) ''key'' (IdNum 42) (IdNum 1)
             (if truthy_str None then None else None) (fst (0::nat, [] :: request list)) = (Inr d, 0)"
    by (simp add: stub_remote_def)
  from requestDownloadLink_link [OF h [of cdn_link]]
    requestDownloadLink_link [OF h [of "\<lparr>download = None, url = Some ''https://cdn/y''\<rparr>"]]
    requestDownloadLink_link [OF h [of "\<lparr>download = None, url = None\<rparr>"]]
  show ?thesis by (simp add: cdn_link_def truthy_str_def)
qed

section \<open>The resolution pipeline\<close>

text \<open>
  Claim C10. \<open>resolve\<close> never throws: whatever the token, the remote answers and the
  collaborators do, it returns a value, which is the link when the body of its \<open>try\<close>
  block returns one, the access-failed code when the body throws \<open>BadTokenError\<close> or
  \<open>AccessDeniedError\<close>, and the unexpected-failure code for every other thrown value.
\<close>

theorem resolve_total:
  "(\<exists>v. fst (resolve R getMagnetLink isVideo p s) = Inr v)
   \<and> (\<forall>link. fst (resolve_try R getMagnetLink isVideo p s) = Inr link
         \<longrightarrow> fst (resolve R getMagnetLink isVideo p s) = Inr (Link link))
   \<and> (\<forall>err. fst (resolve_try R getMagnetLink isVideo p s) = Inl err
         \<longrightarrow> fst (resolve R getMagnetLink isVideo p s) =
               Inr (if err = BadTokenError \<or> err = AccessDeniedError then FAILED_ACCESS
                    else FAILED_UNEXPECTED))"
  by (auto simp: resolve_def split: prod.splits sum.splits)

theorem resolve_total_witness:
  "fst (resolve_try (stub_remote (\<lambda>w. Inr (IdNum 42)) (Inr (DataObject movie)) (Inr None) (Inr cdn_link))
          stub_magnet stub_isVideo token (0, [])) = Inr ''https://cdn/x''
   \<and> fst (resolve (stub_remote (\<lambda>w. Inr (IdNum 42)) (Inr (DataObject movie)) (Inr None) (Inr cdn_link))
          stub_magnet stub_isVideo token (0, [])) = Inr (Link ''https://cdn/x'')
   \<and> fst (resolve_try (stub_remote (\<lambda>w. Inl (AxiosError (Some 402) ''Payment Required''))
                         (Inr NoData) (Inr None) (Inr cdn_link))
          stub_magnet stub_isVideo token (0, [])) = Inl AccessDeniedError
   \<and> fst (resolve (stub_remote (\<lambda>w. Inl (AxiosError (Some 402) ''Payment Required''))
                         (Inr NoData) (Inr None) (Inr cdn_link))
          stub_magnet stub_isVideo token (0, [])) = Inr FAILED_ACCESS
   \<and> fst (resolve_try (stub_remote (\<lambda>w. Inr (IdNum 42)) (Inr NoData) (Inr None) (Inr cdn_link))
          stub_magnet stub_isVideo token (0, [])) = Inl (Error ''File index out of range'')
   \<and> fst (resolve (stub_remote (\<lambda>w. Inr (IdNum 42)) (Inr NoData) (Inr None) (Inr cdn_link))
          stub_magnet stub_isVideo token (0, [])) = Inr FAILED_UNEXPECTED"
proof -
  let ?A = "stub_remote (\<lambda>w. Inr (IdNum 42)) (Inr (DataObject movie)) (Inr None) (Inr cdn_link)"
  let ?B = "stub_remote (\<lambda>w. Inl (AxiosError (Some 402) ''Payment Required''))
              (Inr NoData) (Inr None) (Inr cdn_link)"
  let ?C = "stub_remote (\<lambda>w. Inr (IdNum 42)) (Inr NoData) (Inr None) (Inr cdn_link)"
  have a: "fst (resolve_try ?A stub_magnet stub_isVideo token (0, [])) = Inr ''https://cdn/x''"
    by (simp add: run_defs stub_defs rethrowAuth_def)
  have b: "fst (resolve_try ?B stub_magnet stub_isVideo token (0, [])) = Inl AccessDeniedError"
    by (simp add: run_defs stub_defs rethrowAuth_def)
  have c: "fst (resolve_try ?C stub_magnet stub_isVideo token (0, []))
             = Inl (Error ''File index out of range'')"
    by (simp add: run_defs stub_defs rethrowAuth_def)
  from a b c
    resolve_total [of ?A stub_magnet stub_isVideo token "(0, [])"]
    resolve_total [of ?B stub_magnet stub_isVideo token "(0, [])"]
    resolve_total [of ?C stub_magnet stub_isVideo token "(0, [])"]
  show ?thesis by simp
qed

text \<open>
  Status 401 on the create call and on either list call goes through \<open>_rethrowAuth\<close>
  and ends in the access-failed code.
\<close>

lemma resolve_create_401:
  assumes "getMagnetLink (infohash p) = Inr magnet"
    and "post_createtorrent R magnet (apiKey p) (fst s) = (Inl err, w1)"
    and "response_status err = Some 401"
  shows "fst (resolve R getMagnetLink isVideo p s) = Inr FAILED_ACCESS"
  using assms
  by (simp add: resolve_def resolve_try_def createOrFindTorrent_def axios_def rethrowAuth_def)

lemma myList_401:
  assumes "get_mylist R (if truthy ident then Some ident else None) key (fst s) = (Inl err, w1)"
    and "response_status err = Some 401"
  shows "fst (myList R key ident s) = Inl BadTokenError"
  using assms by (simp add: myList_def Let_def axios_def rethrowAuth_def)

lemma resolve_lookup_401:
  assumes "getMagnetLink (infohash p) = Inr magnet"
    and "post_createtorrent R magnet (apiKey p) (fst s) = (Inr created, w1)"
    and "\<not> truthy created"
    and "get_mylist R None (apiKey p) w1 = (Inl err, w2)"
    and "response_status err = Some 401"
  shows "fst (resolve R getMagnetLink isVideo p s) = Inr FAILED_ACCESS"
  using assms
  by (simp add: resolve_def resolve_try_def createOrFindTorrent_def myList_def axios_def
      rethrowAuth_def)

lemma resolve_detail_401:
  assumes "getMagnetLink (infohash p) = Inr magnet"
    and "createOrFindTorrent R (apiKey p) (infohash p) magnet s = (Inr tid, s1)"
    and "get_mylist R (if truthy tid then Some tid else None) (apiKey p) (fst s1) = (Inl err, w2)"
    and "response_status err = Some 401"
  shows "fst (resolve R getMagnetLink isVideo p s) = Inr FAILED_ACCESS"
  using assms
  by (simp add: resolve_def resolve_try_def getFileIdForIndex_def myList_def axios_def
      rethrowAuth_def)

text \<open>
  The download-link call has no handler: whatever status its rejection carries, the
  rejection reaches the \<open>catch\<close> of \<open>resolve\<close> as it is, and is not one of the two
  sentinels.
\<close>

lemma resolve_requestdl_rejection:
  assumes "getMagnetLink (infohash p) = Inr magnet"
    and "createOrFindTorrent R (apiKey p) (infohash p) magnet s = (Inr tid, s1)"
    and "getFileIdForIndex R isVideo (apiKey p) tid (fileIndex p) s1 = (Inr fid, s2)"
    and "get_requestdl R (apiKey p) tid fid (if truthy_str (ip p) then ip p else None) (fst s2)
           = (Inl (AxiosError st msg), w3)"
  shows "fst (resolve R getMagnetLink isVideo p s) = Inr FAILED_UNEXPECTED"
  using assms
  by (simp add: resolve_def resolve_try_def requestDownloadLink_def Let_def axios_def)

text \<open>
  Claim C1 fails at the download-link endpoint. The create call gives torrent 42, the
  list call gives a torrent with one video file, and the download-link call is rejected
  with status 401: \<open>resolve\<close> returns the unexpected-failure code, where the claim asks
  for the access-failed one.
\<close>

theorem resolve_requestdl_401:
  "fst (resolve (stub_remote (\<lambda>w. Inr (IdNum 42)) (Inr (DataObject movie)) (Inr None)
                   (Inl (AxiosError (Some 401) ''Unauthorized'')))
          stub_magnet stub_isVideo token (0, []))
   = Inr FAILED_UNEXPECTED"
  by (simp add: run_defs stub_defs)

section \<open>The availability checker\<close>

lemmas check_defs = checkCached_def missing_hashes_def chunkArray.simps axios_def

lemma checkCached_hit:
  assumes "getCachedAvailabilityResults C hashes (fst s) = (Inr cached, w1)"
    and "missing_hashes cached hashes = []"
  shows "checkCached R C hashes key n s = (Inr cached, (w1, snd s))"
  using assms by (simp add: checkCached_def Let_def)

lemma checkCached_read_fails:
  assumes "getCachedAvailabilityResults C hashes (fst s) = (Inl err, w1)"
  shows "checkCached R C hashes key n s = (Inl err, (w1, snd s))"
  using assms by (simp add: checkCached_def)

lemma checkCached_miss:
  assumes "getCachedAvailabilityResults C hashes (fst s) = (Inr cached, w1)"
    and "missing_hashes cached hashes \<noteq> []"
  shows "checkCached R C hashes key n s =
     (case checkCached_loop R key (chunkArray (missing_hashes cached hashes) n) Map.empty (w1, snd s) of
        (Inl err, s2) \<Rightarrow> (Inl err, s2)
      | (Inr acc, s2) \<Rightarrow>
          (case cacheAvailabilityResults C acc (fst s2) of (r, w3) \<Rightarrow> (r, (w3, snd s2))))"
  using assms by (simp add: checkCached_def Let_def)

lemma checkCached_miss_rejected:
  assumes "getCachedAvailabilityResults C hashes (fst s) = (Inr cached, w1)"
    and "missing_hashes cached hashes \<noteq> []"
    and "fst (checkCached_loop R key (chunkArray (missing_hashes cached hashes) n) Map.empty
                (w1, snd s)) = Inl err"
  shows "fst (checkCached R C hashes key n s) = Inl err"
proof -
  obtain r s2 where l: "checkCached_loop R key (chunkArray (missing_hashes cached hashes) n)
                          Map.empty (w1, snd s) = (r, s2)"
    by (cases "checkCached_loop R key (chunkArray (missing_hashes cached hashes) n)
                 Map.empty (w1, snd s)")
  with assms(3) have "r = Inl err" by simp
  with l show ?thesis by (simp add: checkCached_miss [OF assms(1,2)])
qed

lemma checkCached_miss_log:
  assumes "getCachedAvailabilityResults C hashes (fst s) = (Inr cached, w1)"
    and "missing_hashes cached hashes \<noteq> []"
  shows "snd (snd (checkCached R C hashes key n s)) =
     snd (snd (checkCached_loop R key (chunkArray (missing_hashes cached hashes) n) Map.empty (w1, snd s)))"
  using assms by (simp add: checkCached_def Let_def split: prod.splits sum.splits)

lemma checkCached_log_prefix:
  assumes "getCachedAvailabilityResults C hashes (fst s) = (Inr cached, w1)"
  shows "\<exists>k \<le> length (chunkArray (missing_hashes cached hashes) n).
           snd (snd (checkCached R C hashes key n s)) =
             snd s @ map (\<lambda>c. CheckCached c key)
                       (take k (chunkArray (missing_hashes cached hashes) n))"
proof (cases "missing_hashes cached hashes = []")
  case True
  with assms have "snd (snd (checkCached R C hashes key n s)) = snd s"
    by (simp add: checkCached_hit)
  then show ?thesis by (intro exI [of _ 0]) simp
next
  case False
  from loop_log_prefix [of "chunkArray (missing_hashes cached hashes) n" R key Map.empty "(w1, snd s)"]
  show ?thesis by (simp add: checkCached_miss_log [OF assms False])
qed

lemma missing_hashes_members:
  "h \<in> set (missing_hashes cached hashes) \<longleftrightarrow> h \<in> set hashes \<and> cached h = None"
  by (simp add: missing_hashes_def)

lemma chunk_member_missing:
  assumes "c \<in> set (take k (chunkArray xs n))" "h \<in> set c"
  shows "h \<in> set xs"
proof -
  from assms(1) have "c \<in> set (chunkArray xs n)" by (rule in_set_takeD)
  with assms(2) have "h \<in> set (concat (chunkArray xs n))" by auto
  then show ?thesis using chunkArray_members [of xs n] by auto
qed

lemma first_batch_rejected:
  assumes "getCachedAvailabilityResults C hashes (fst s) = (Inr cached, w1)"
    and "missing_hashes cached hashes \<noteq> []"
    and "0 < n"
    and "get_checkcached R (take n (missing_hashes cached hashes)) key w1 = (Inl err, w2)"
  shows "snd (snd (checkCached R C hashes key n s)) =
           snd s @ [CheckCached (take n (missing_hashes cached hashes)) key]"
proof -
  have "chunkArray (missing_hashes cached hashes) n =
          take n (missing_hashes cached hashes) # chunkArray (drop n (missing_hashes cached hashes)) n"
    using assms(2,3) by (subst chunkArray.simps) simp
  then show ?thesis
    using assms by (simp add: checkCached_miss_log axios_def)
qed

lemma many_hashes_distinct: "distinct many_hashes \<and> length many_hashes = 101"
proof -
  have "inj_on (\<lambda>k. replicate k CHR ''a'') (set [1..<102])"
    by (rule inj_onI) (metis length_replicate)
  then show ?thesis by (simp add: many_hashes_def distinct_map)
qed

text \<open>
  Claim C6. With \<open>cached\<close> the mapping read from the local cache, every request the
  checker issues is a bulk check whose hashes are requested hashes without an entry in
  \<open>cached\<close>, so that no hash present in the cache, with a non-empty file list or
  otherwise, is ever asked about; and when every requested hash has an entry the checker
  returns \<open>cached\<close> itself and the log of requests is left as it was.
\<close>

theorem checkCached_short_circuit:
  assumes "getCachedAvailabilityResults C hashes (fst s) = (Inr cached, w1)"
  shows "(\<exists>issued. snd (snd (checkCached R C hashes key n s)) = snd s @ issued
            \<and> (\<forall>rq \<in> set issued. \<forall>h \<in> set (queried_hashes rq).
                  h \<in> set hashes \<and> cached h = None \<and> \<not> cached_flag (cached h)))
       \<and> ((\<forall>h \<in> set hashes. cached h \<noteq> None) \<longrightarrow>
            checkCached R C hashes key n s = (Inr cached, (w1, snd s)))"
proof (intro conjI impI)
  from checkCached_log_prefix [OF assms, of n R key]
  obtain k where k: "snd (snd (checkCached R C hashes key n s)) =
             snd s @ map (\<lambda>c. CheckCached c key)
                       (take k (chunkArray (missing_hashes cached hashes) n))" by auto
  let ?issued = "map (\<lambda>c. CheckCached c key) (take k (chunkArray (missing_hashes cached hashes) n))"
  have "\<forall>rq \<in> set ?issued. \<forall>h \<in> set (queried_hashes rq).
                  h \<in> set hashes \<and> cached h = None \<and> \<not> cached_flag (cached h)"
  proof (intro ballI)
    fix rq h
    assume "rq \<in> set ?issued" "h \<in> set (queried_hashes rq)"
    then obtain c where c: "c \<in> set (take k (chunkArray (missing_hashes cached hashes) n))" "h \<in> set c"
      by auto
    then have "h \<in> set (missing_hashes cached hashes)" by (rule chunk_member_missing)
    then show "h \<in> set hashes \<and> cached h = None \<and> \<not> cached_flag (cached h)"
      by (simp add: missing_hashes_members cached_flag_def)
  qed
  with k show "\<exists>issued. snd (snd (checkCached R C hashes key n s)) = snd s @ issued
            \<and> (\<forall>rq \<in> set issued. \<forall>h \<in> set (queried_hashes rq).
                  h \<in> set hashes \<and> cached h = None \<and> \<not> cached_flag (cached h))"
    by blast
next
  assume "\<forall>h \<in> set hashes. cached h \<noteq> None"
  then have "missing_hashes cached hashes = []"
    by (auto simp: missing_hashes_def filter_empty_conv)
  with assms show "checkCached R C hashes key n s = (Inr cached, (w1, snd s))"
    by (rule checkCached_hit)
qed

theorem checkCached_short_circuit_witness:
  "checkCached (stub_remote (\<lambda>w. Inr IdNull) (Inr NoData) (Inr None) (Inr cdn_link))
      (stub_cache [''abc123'' \<mapsto> entry]) [''abc123''] ''key'' 100 (0, [])
     = (Inr [''abc123'' \<mapsto> entry], (0, []))
   \<and> snd (snd (checkCached (stub_remote (\<lambda>w. Inr IdNull) (Inr NoData) (Inr None) (Inr cdn_link))
      (stub_cache [''abc123'' \<mapsto> entry]) [''abc123'', ''def456''] ''key'' 100 (0, [])))
     = [CheckCached [''def456''] ''key'']"
proof -
  let ?R = "stub_remote (\<lambda>w. Inr IdNull) (Inr NoData) (Inr None) (Inr cdn_link)"
  let ?C = "stub_cache [''abc123'' \<mapsto> entry]"
  have h: "getCachedAvailabilityResults ?C [''abc123''] (fst (0::nat, [] :: request list))
             = (Inr [''abc123'' \<mapsto> entry], 0)"
    by (simp add: stub_cache_def)
  have l: "snd (snd (checkCached ?R ?C [''abc123'', ''def456''] ''key'' 100 (0, [])))
     = [CheckCached [''def456''] ''key'']"
    by (simp add: check_defs stub_remote_def stub_cache_def)
  from checkCached_short_circuit [OF h, of ?R "''key''" 100] l
  show ?thesis by simp
qed

text \<open>
  Claim C7, as stated, fails when a bulk check is rejected: the rejection is thrown out of
  the loop, and the batches that remain are never sent. Here 101 different hashes are
  missing, the batch size is the default 100, and the first call is rejected with status
  500: one call is issued, not two.
\<close>

theorem checkCached_batch_count_counterexample:
  "distinct many_hashes
   \<and> length (missing_hashes Map.empty many_hashes) = 101
   \<and> nat \<lceil>real (length (missing_hashes Map.empty many_hashes)) / real 100\<rceil> = 2
   \<and> length (snd (snd (checkCached
        (stub_remote (\<lambda>w. Inr IdNull) (Inr NoData) (Inl (AxiosError (Some 500) ''Server Error''))
           (Inr cdn_link))
        (stub_cache Map.empty) many_hashes ''key'' 100 (0, [])))) = 1"
proof -
  let ?R = "stub_remote (\<lambda>w. Inr IdNull) (Inr NoData) (Inl (AxiosError (Some 500) ''Server Error''))
           (Inr cdn_link)"
  have m: "missing_hashes Map.empty many_hashes = many_hashes"
    by (simp add: missing_hashes_def)
  have l: "length many_hashes = 101" using many_hashes_distinct by simp
  have ne: "missing_hashes Map.empty many_hashes \<noteq> []" using m l by auto
  have c: "nat \<lceil>real (length (missing_hashes Map.empty many_hashes)) / real 100\<rceil> = 2"
    using ceiling_as_div [of 100 101] m l by simp
  have g: "getCachedAvailabilityResults (stub_cache Map.empty) many_hashes (fst (0::nat, [] :: request list))
             = (Inr Map.empty, 0)"
    by (simp add: stub_cache_def)
  have r: "get_checkcached ?R (take 100 (missing_hashes Map.empty many_hashes)) ''key'' 0
             = (Inl (AxiosError (Some 500) ''Server Error''), 0)"
    by (simp add: stub_remote_def)
  from first_batch_rejected [OF g ne _ r]
  have "length (snd (snd (checkCached ?R (stub_cache Map.empty) many_hashes ''key'' 100 (0, [])))) = 1"
    by simp
  with many_hashes_distinct m l c show ?thesis by simp
qed

text \<open>
  Claim C7, amended. With a non-empty list of missing hashes and a positive batch size,
  the batches are \<open>ceil(|missing| / batchSize)\<close> many, and the requests are issued
  batch after batch in their order. When every batch is answered (in particular whenever
  the checker returns) there is one request per batch, so their number is
  \<open>ceil(|missing| / batchSize)\<close>. When a call is rejected the checker throws, no
  later batch is sent, and the number of requests is the number of batches answered
  before plus one, the rejected call itself. \<open>checkCached_replies\<close> holds the answers
  up to the first rejection, so its length is the number of batches answered. The
  batches are those of \<open>chunkArray\<close> as the spec describes it.
\<close>

theorem checkCached_batch_count:
  assumes "getCachedAvailabilityResults C hashes (fst s) = (Inr cached, w1)"
    and "missing_hashes cached hashes \<noteq> []"
    and "0 < n"
  shows "(\<forall>acc. fst (checkCached_loop R key (chunkArray (missing_hashes cached hashes) n)
                    Map.empty (w1, snd s)) = Inr acc \<longrightarrow>
            snd (snd (checkCached R C hashes key n s)) =
              snd s @ map (\<lambda>c. CheckCached c key) (chunkArray (missing_hashes cached hashes) n)
            \<and> length (snd (snd (checkCached R C hashes key n s))) =
              length (snd s) + nat \<lceil>real (length (missing_hashes cached hashes)) / real n\<rceil>)
       \<and> (\<forall>r. fst (checkCached R C hashes key n s) = Inr r \<longrightarrow>
            length (snd (snd (checkCached R C hashes key n s))) =
              length (snd s) + nat \<lceil>real (length (missing_hashes cached hashes)) / real n\<rceil>)
       \<and> (\<exists>k \<le> nat \<lceil>real (length (missing_hashes cached hashes)) / real n\<rceil>.
            snd (snd (checkCached R C hashes key n s)) =
              snd s @ map (\<lambda>c. CheckCached c key)
                        (take k (chunkArray (missing_hashes cached hashes) n)))
       \<and> length (chunkArray (missing_hashes cached hashes) n) =
            nat \<lceil>real (length (missing_hashes cached hashes)) / real n\<rceil>
       \<and> (length (checkCached_replies R key (chunkArray (missing_hashes cached hashes) n) (w1, snd s))
            = length (chunkArray (missing_hashes cached hashes) n) \<longrightarrow>
            snd (snd (checkCached R C hashes key n s)) =
              snd s @ map (\<lambda>c. CheckCached c key) (chunkArray (missing_hashes cached hashes) n))
       \<and> (length (checkCached_replies R key (chunkArray (missing_hashes cached hashes) n) (w1, snd s))
            < length (chunkArray (missing_hashes cached hashes) n) \<longrightarrow>
            (\<exists>err. fst (checkCached R C hashes key n s) = Inl err)
            \<and> snd (snd (checkCached R C hashes key n s)) =
                snd s @ map (\<lambda>c. CheckCached c key)
                  (take (Suc (length (checkCached_replies R key
                                       (chunkArray (missing_hashes cached hashes) n) (w1, snd s))))
                     (chunkArray (missing_hashes cached hashes) n))
            \<and> length (snd (snd (checkCached R C hashes key n s))) =
                length (snd s)
                + length (checkCached_replies R key (chunkArray (missing_hashes cached hashes) n)
                            (w1, snd s)) + 1)
       \<and> length (checkCached_replies R key (chunkArray (missing_hashes cached hashes) n) (w1, snd s))
            \<le> length (chunkArray (missing_hashes cached hashes) n)"
proof -
  let ?chunks = "chunkArray (missing_hashes cached hashes) n"
  let ?loop = "checkCached_loop R key ?chunks Map.empty (w1, snd s)"
  let ?replies = "checkCached_replies R key ?chunks (w1, snd s)"
  have len: "length ?chunks = nat \<lceil>real (length (missing_hashes cached hashes)) / real n\<rceil>"
    using assms(3) by (rule chunkArray_count)
  have log: "snd (snd (checkCached R C hashes key n s)) = snd (snd ?loop)"
    using assms(1,2) by (rule checkCached_miss_log)
  have ok: "snd (snd (checkCached R C hashes key n s)) = snd s @ map (\<lambda>c. CheckCached c key) ?chunks
            \<and> length (snd (snd (checkCached R C hashes key n s))) =
              length (snd s) + nat \<lceil>real (length (missing_hashes cached hashes)) / real n\<rceil>"
    if "fst ?loop = Inr acc" for acc
  proof -
    from loop_log_ok [OF that] log
    have e: "snd (snd (checkCached R C hashes key n s)) = snd s @ map (\<lambda>c. CheckCached c key) ?chunks"
      by simp
    then have "length (snd (snd (checkCached R C hashes key n s))) = length (snd s) + length ?chunks"
      by simp
    with e len show ?thesis by simp
  qed
  have ret: "\<exists>acc. fst ?loop = Inr acc" if "fst (checkCached R C hashes key n s) = Inr r" for r
    using that checkCached_miss [OF assms(1,2), of R key n]
    by (cases ?loop) (auto split: sum.splits prod.splits)
  from checkCached_log_prefix [OF assms(1), of n R key] len
  have pre: "\<exists>k \<le> nat \<lceil>real (length (missing_hashes cached hashes)) / real n\<rceil>.
            snd (snd (checkCached R C hashes key n s)) =
              snd s @ map (\<lambda>c. CheckCached c key) (take k ?chunks)"
    by simp
  have all: "snd (snd (checkCached R C hashes key n s)) = snd s @ map (\<lambda>c. CheckCached c key) ?chunks"
    if "length ?replies = length ?chunks"
  proof -
    from loop_all_answered [OF that, of Map.empty] obtain m where "fst ?loop = Inr m" by blast
    then show ?thesis using ok by blast
  qed
  have rej: "(\<exists>err. fst (checkCached R C hashes key n s) = Inl err)
            \<and> snd (snd (checkCached R C hashes key n s)) =
                snd s @ map (\<lambda>c. CheckCached c key) (take (Suc (length ?replies)) ?chunks)
            \<and> length (snd (snd (checkCached R C hashes key n s))) =
                length (snd s) + length ?replies + 1"
    if "length ?replies < length ?chunks"
  proof -
    from loop_rejected [OF that, of Map.empty]
    obtain err where e: "fst ?loop = Inl err"
      and l: "snd (snd ?loop) = snd s @ map (\<lambda>c. CheckCached c key) (take (Suc (length ?replies)) ?chunks)"
      by auto
    from checkCached_miss_rejected [OF assms(1,2) e]
    have "\<exists>err. fst (checkCached R C hashes key n s) = Inl err" by blast
    moreover have l': "snd (snd (checkCached R C hashes key n s)) =
                snd s @ map (\<lambda>c. CheckCached c key) (take (Suc (length ?replies)) ?chunks)"
      using l log by simp
    moreover have "length (snd (snd (checkCached R C hashes key n s))) =
                length (snd s) + length ?replies + 1"
      using that by (simp add: l')
    ultimately show ?thesis by blast
  qed
  have le: "length ?replies \<le> length ?chunks" by (rule loop_replies_le)
  show ?thesis
    apply (intro conjI)
    using ok apply blast
    using ok ret apply blast
    using pre apply blast
    using len apply blast
    using all apply blast
    using rej apply blast
    using le apply blast
    done
qed

theorem checkCached_batch_count_witness:
  "snd (snd (checkCached (stub_remote (\<lambda>w. Inr IdNull) (Inr NoData) (Inr None) (Inr cdn_link))
        (stub_cache Map.empty) [''a'', ''b'', ''c''] ''key'' 2 (0, [])))
     = [CheckCached [''a'', ''b''] ''key'', CheckCached [''c''] ''key'']
   \<and> length (snd (snd (checkCached (stub_remote (\<lambda>w. Inr IdNull) (Inr NoData) (Inr None) (Inr cdn_link))
        (stub_cache Map.empty) [''a'', ''b'', ''c''] ''key'' 2 (0, [])))) = 2
   \<and> nat \<lceil>real (length [''a'', ''b'', ''c'']) / real 2\<rceil> = 2
   \<and> fst (checkCached (stub_remote (\<lambda>w. Inr IdNull) (Inr NoData)
                          (Inl (AxiosError (Some 500) ''Server Error'')) (Inr cdn_link))
        (stub_cache Map.empty) [''a'', ''b'', ''c''] ''key'' 2 (0, []))
       = Inl (AxiosError (Some 500) ''Server Error'')
   \<and> snd (snd (checkCached (stub_remote (\<lambda>w. Inr IdNull) (Inr NoData)
                          (Inl (AxiosError (Some 500) ''Server Error'')) (Inr cdn_link))
        (stub_cache Map.empty) [''a'', ''b'', ''c''] ''key'' 2 (0, [])))
       = [CheckCached [''a'', ''b''] ''key'']"
proof -
  let ?R = "stub_remote (\<lambda>w. Inr IdNull) (Inr NoData) (Inr None) (Inr cdn_link)"
  let ?F = "stub_remote (\<lambda>w. Inr IdNull) (Inr NoData)
                          (Inl (AxiosError (Some 500) ''Server Error'')) (Inr cdn_link)"
  let ?C = "stub_cache Map.empty"
  let ?hs = "[''a'', ''b'', ''c'']"
  have g: "getCachedAvailabilityResults ?C ?hs (fst (0::nat, [] :: request list)) = (Inr Map.empty, 0)"
    by (simp add: stub_cache_def)
  have m: "missing_hashes Map.empty ?hs = ?hs" by (simp add: missing_hashes_def)
  have ne: "missing_hashes Map.empty ?hs \<noteq> []" by (simp add: m)
  have ch: "chunkArray ?hs 2 = [[''a'', ''b''], [''c'']]" by (simp add: chunkArray.simps)
  have ok: "fst (checkCached_loop ?R ''key'' (chunkArray (missing_hashes Map.empty ?hs) 2) Map.empty
                  (0, snd (0::nat, [] :: request list))) = Inr Map.empty"
    by (simp add: m ch axios_def stub_remote_def)
  have c: "nat \<lceil>real (length ?hs) / real 2\<rceil> = 2"
    using ceiling_as_div [of 2 3] by simp
  have rp: "checkCached_replies ?F ''key'' (chunkArray (missing_hashes Map.empty ?hs) 2)
              (0, snd (0::nat, [] :: request list)) = []"
    by (simp add: m ch axios_def stub_remote_def)
  have thrown: "fst (checkCached ?F ?C ?hs ''key'' 2 (0, [])) = Inl (AxiosError (Some 500) ''Server Error'')"
    by (simp add: check_defs stub_remote_def stub_cache_def rethrowAuth_def)
  from checkCached_batch_count [OF g ne, of 2 ?R "''key''"] ok m ch c
  have one: "snd (snd (checkCached ?R ?C ?hs ''key'' 2 (0, [])))
     = [CheckCached [''a'', ''b''] ''key'', CheckCached [''c''] ''key'']" by simp
  from checkCached_batch_count [OF g ne, of 2 ?F "''key''"] rp m ch
  have two: "snd (snd (checkCached ?F ?C ?hs ''key'' 2 (0, []))) = [CheckCached [''a'', ''b''] ''key'']"
    by simp
  from one two c thrown show ?thesis by simp
qed

text \<open>
  Claim C2, as stated, fails on the accumulator. It starts empty and only
  \<open>Object.assign\<close> writes to it: a queried hash that the remote leaves out of its answer
  gets no entry, no default is written.
\<close>

theorem checkCached_accumulator_counterexample:
  "fst (checkCached_loop (stub_remote (\<lambda>w. Inr IdNull) (Inr NoData) (Inr None) (Inr cdn_link))
          ''key'' (chunkArray [''abc123''] 100) Map.empty (0, [])) = Inr Map.empty
   \<and> fst (checkCached_loop
            (stub_remote (\<lambda>w. Inr IdNull) (Inr NoData) (Inr (Some [''abc123'' \<mapsto> entry]))
               (Inr cdn_link))
          ''key'' (chunkArray [''abc123'', ''def456''] 100) Map.empty (0, []))
       = Inr [''abc123'' \<mapsto> entry]
   \<and> [''abc123'' \<mapsto> entry] ''def456'' = None"
  by (simp add: chunkArray.simps axios_def stub_remote_def)

text \<open>
  Claim C2, amended. When all batches complete, the accumulator is the answers of the
  remote merged in order (a later answer wins on a shared key), with one answer per
  batch: a hash has an entry exactly when some answer has one for it, and a queried hash
  that no answer returned has none.
\<close>

theorem checkCached_accumulator:
  assumes "getCachedAvailabilityResults C hashes (fst s) = (Inr cached, w1)"
    and "missing_hashes cached hashes \<noteq> []"
    and "checkCached_loop R key (chunkArray (missing_hashes cached hashes) n) Map.empty (w1, snd s)
           = (Inr acc, s2)"
  shows "acc = foldl (++) Map.empty
                 (checkCached_replies R key (chunkArray (missing_hashes cached hashes) n) (w1, snd s))
       \<and> length (checkCached_replies R key (chunkArray (missing_hashes cached hashes) n) (w1, snd s))
           = length (chunkArray (missing_hashes cached hashes) n)
       \<and> (\<forall>h. acc h = None \<longleftrightarrow>
             (\<forall>r \<in> set (checkCached_replies R key (chunkArray (missing_hashes cached hashes) n)
                           (w1, snd s)). r h = None))"
proof -
  let ?chunks = "chunkArray (missing_hashes cached hashes) n"
  let ?replies = "checkCached_replies R key ?chunks (w1, snd s)"
  from assms(3) have "fst (checkCached_loop R key ?chunks Map.empty (w1, snd s)) = Inr acc" by simp
  from loop_acc [OF this]
  have a: "acc = foldl (++) Map.empty ?replies" and l: "length ?replies = length ?chunks" by simp_all
  have n: "\<forall>h. acc h = None \<longleftrightarrow> (\<forall>r \<in> set ?replies. r h = None)"
    by (subst a) (simp add: foldl_map_add_None)
  from a l n show ?thesis by blast
qed

theorem checkCached_accumulator_witness:
  "missing_hashes [''0123ab'' \<mapsto> entry] [''0123ab'', ''abc123'', ''def456''] = [''abc123'', ''def456'']
   \<and> checkCached_loop
        (stub_remote (\<lambda>w. Inr IdNull) (Inr NoData) (Inr (Some [''abc123'' \<mapsto> entry])) (Inr cdn_link))
        ''key'' (chunkArray [''abc123'', ''def456''] 100) Map.empty (0, [])
      = (Inr [''abc123'' \<mapsto> entry], (0, [CheckCached [''abc123'', ''def456''] ''key'']))
   \<and> checkCached_replies
        (stub_remote (\<lambda>w. Inr IdNull) (Inr NoData) (Inr (Some [''abc123'' \<mapsto> entry])) (Inr cdn_link))
        ''key'' (chunkArray [''abc123'', ''def456''] 100) (0, [])
      = [[''abc123'' \<mapsto> entry]]
   \<and> ([''abc123'' \<mapsto> entry] ''def456'' = None
        \<longleftrightarrow> (\<forall>r \<in> set [[''abc123'' \<mapsto> entry]]. r ''def456'' = None))"
proof -
  let ?R = "stub_remote (\<lambda>w. Inr IdNull) (Inr NoData) (Inr (Some [''abc123'' \<mapsto> entry]))
                  (Inr cdn_link)"
  let ?C = "stub_cache [''0123ab'' \<mapsto> entry]"
  let ?hs = "[''0123ab'', ''abc123'', ''def456'']"
  let ?ms = "[''abc123'', ''def456'']"
  let ?s2 = "(0::nat, [CheckCached ?ms ''key''])"
  have g: "getCachedAvailabilityResults ?C ?hs (fst (0::nat, [] :: request list))
             = (Inr [''0123ab'' \<mapsto> entry], 0)"
    by (simp add: stub_cache_def)
  have m: "missing_hashes [''0123ab'' \<mapsto> entry] ?hs = ?ms" by (simp add: missing_hashes_def)
  have ne: "missing_hashes [''0123ab'' \<mapsto> entry] ?hs \<noteq> []" by (simp add: m)
  have ch: "chunkArray ?ms 100 = [?ms]" by (simp add: chunkArray.simps)
  have lp: "checkCached_loop ?R ''key'' (chunkArray (missing_hashes [''0123ab'' \<mapsto> entry] ?hs) 100)
              Map.empty (0, snd (0::nat, [] :: request list)) = (Inr [''abc123'' \<mapsto> entry], ?s2)"
    by (simp add: m ch axios_def stub_remote_def)
  have rp: "checkCached_replies ?R ''key'' (chunkArray ?ms 100) (0, []) = [[''abc123'' \<mapsto> entry]]"
    by (simp add: ch axios_def stub_remote_def)
  from checkCached_accumulator [OF g ne lp] m lp rp
  show ?thesis by simp
qed

section \<open>The torrent registrar\<close>












end
